theory Spec2Isabelle
  imports Main
begin

section \<open>JavaScript values\<close>

text \<open>
  The \<^verbatim>\<open>section\<close> field of a request body as the body parser hands it to a
  route: absent (\<^verbatim>\<open>undefined\<close>), \<^verbatim>\<open>null\<close>, a boolean, a number or a
  string. The routes only test it for truthiness and for membership in
  \<^verbatim>\<open>sections\<close>, so its number is an integer here.
\<close>

datatype jsval = JUndefined | JNull | JBool bool | JNum int | JStr (str_of: string)

text \<open>
  A JavaScript number, as far as it is modelled: NaN, the two infinities, and the
  doubles whose value is an integer (fractions are left out: in the data model
  sizes and quantities are integers). \<open>Integer n\<close> stands for the double of value
  \<open>n\<close>; arithmetic rounds its results to doubles (\<open>round_double\<close> below).
\<close>

datatype number = NaN | Integer int | PosInfinity | NegInfinity

text \<open>
  The value of the \<^verbatim>\<open>size\<close> or \<^verbatim>\<open>quantity\<close> property of a stock item or
  of a log entry: a number, or \<^verbatim>\<open>null\<close>, which is what a non-finite number
  becomes in a JSON document.
\<close>

datatype numval = Null | Num number

text \<open>
  The \<^verbatim>\<open>size\<close> and \<^verbatim>\<open>quantity\<close> fields of a request body: one of JSON's
  falsy values or a number (\<^verbatim>\<open>JSON.parse\<close> reads \<^verbatim>\<open>1e999\<close> as Infinity).
  The values JavaScript would have to convert between strings and numbers
  (\<^verbatim>\<open>true\<close>, non-empty strings, arrays and objects) are not represented: no
  statement below is about a request that carries one.
\<close>

datatype num_field = FMissing | FNull | FFalse | FEmpty | FNum (num_of: number)

text \<open>JavaScript's \<^verbatim>\<open>!v\<close> is \<open>\<not> truthy v\<close>.\<close>

fun truthy :: "jsval \<Rightarrow> bool" where
  "truthy JUndefined = False"
| "truthy JNull = False"
| "truthy (JBool b) = b"
| "truthy (JNum n) = (n \<noteq> 0)"
| "truthy (JStr s) = (s \<noteq> [])"

fun truthy_number :: "number \<Rightarrow> bool" where
  "truthy_number NaN = False"
| "truthy_number (Integer n) = (n \<noteq> 0)"
| "truthy_number PosInfinity = True"
| "truthy_number NegInfinity = True"

fun truthy_field :: "num_field \<Rightarrow> bool" where
  "truthy_field (FNum n) = truthy_number n"
| "truthy_field FMissing = False"
| "truthy_field FNull = False"
| "truthy_field FFalse = False"
| "truthy_field FEmpty = False"

text \<open>
  \<^verbatim>\<open>quantity <= 0\<close>: the field is converted to a number first (\<^verbatim>\<open>null\<close>,
  \<^verbatim>\<open>false\<close> and the empty string to 0, \<^verbatim>\<open>undefined\<close> to NaN, and every
  comparison with NaN is false).
\<close>

fun le_zero :: "num_field \<Rightarrow> bool" where
  "le_zero (FNum NaN) = False"
| "le_zero (FNum (Integer n)) = (n \<le> 0)"
| "le_zero (FNum PosInfinity) = False"
| "le_zero (FNum NegInfinity) = True"
| "le_zero FMissing = False"
| "le_zero FNull = True"
| "le_zero FFalse = True"
| "le_zero FEmpty = True"

subsection \<open>Arithmetic on doubles\<close>

text \<open>
  The gap between neighbouring doubles at a magnitude: 1 below \<open>2^53\<close>, and
  doubling with every binary digit beyond the 53rd.
\<close>

function ulp :: "int \<Rightarrow> int" where
  "ulp n = (if n < 2 ^ 53 then 1 else 2 * ulp (n div 2))"
  by pat_completeness auto
termination
  by (relation "measure nat") auto

declare ulp.simps [simp del]

text \<open>
  The double nearest to an integer: a magnitude below \<open>2^53\<close> is a double; a
  larger one is rounded to a multiple of the gap, a tie going to the even
  multiple; from \<open>2^1024\<close> on the result is infinite.
\<close>

definition round_magnitude :: "int \<Rightarrow> int" where
  "round_magnitude n =
     (let u = ulp n;
          q = n div u;
          r = n mod u
      in if u < 2 * r \<or> (2 * r = u \<and> odd q) then (q + 1) * u else q * u)"

definition round_double :: "int \<Rightarrow> number" where
  "round_double n =
     (let m = round_magnitude \<bar>n\<bar>
      in if 2 ^ 1024 \<le> m then (if n < 0 then NegInfinity else PosInfinity)
         else Integer (if n < 0 then - m else m))"

text \<open>\<^verbatim>\<open>a + b\<close>, \<^verbatim>\<open>a - b\<close> and \<^verbatim>\<open>a < b\<close> on numbers.\<close>

fun add_number :: "number \<Rightarrow> number \<Rightarrow> number" where
  "add_number NaN b = NaN"
| "add_number a NaN = NaN"
| "add_number PosInfinity NegInfinity = NaN"
| "add_number NegInfinity PosInfinity = NaN"
| "add_number PosInfinity b = PosInfinity"
| "add_number NegInfinity b = NegInfinity"
| "add_number a PosInfinity = PosInfinity"
| "add_number a NegInfinity = NegInfinity"
| "add_number (Integer a) (Integer b) = round_double (a + b)"

fun sub_number :: "number \<Rightarrow> number \<Rightarrow> number" where
  "sub_number NaN b = NaN"
| "sub_number a NaN = NaN"
| "sub_number PosInfinity PosInfinity = NaN"
| "sub_number NegInfinity NegInfinity = NaN"
| "sub_number PosInfinity b = PosInfinity"
| "sub_number NegInfinity b = NegInfinity"
| "sub_number a PosInfinity = NegInfinity"
| "sub_number a NegInfinity = PosInfinity"
| "sub_number (Integer a) (Integer b) = round_double (a - b)"

fun lt_number :: "number \<Rightarrow> number \<Rightarrow> bool" where
  "lt_number NaN b = False"
| "lt_number a NaN = False"
| "lt_number (Integer a) (Integer b) = (a < b)"
| "lt_number a PosInfinity = (a \<noteq> PosInfinity)"
| "lt_number NegInfinity b = (b \<noteq> NegInfinity)"
| "lt_number PosInfinity b = False"
| "lt_number a NegInfinity = False"

text \<open>The number an arithmetic operator makes of its operand: \<^verbatim>\<open>null\<close> is 0.\<close>

fun to_number :: "numval \<Rightarrow> number" where
  "to_number Null = Integer 0"
| "to_number (Num n) = n"

text \<open>
  \<^verbatim>\<open>a === b\<close>: \<^verbatim>\<open>null\<close> equals only \<^verbatim>\<open>null\<close>, a number equals the same
  number, and NaN equals nothing.
\<close>

fun strict_eq :: "numval \<Rightarrow> numval \<Rightarrow> bool" where
  "strict_eq Null Null = True"
| "strict_eq (Num a) (Num b) = (a \<noteq> NaN \<and> a = b)"
| "strict_eq Null (Num b) = False"
| "strict_eq (Num a) Null = False"

text \<open>\<^verbatim>\<open>isNaN\<close> on a number.\<close>

fun isNaN :: "number \<Rightarrow> bool" where
  "isNaN NaN = True"
| "isNaN (Integer n) = False"
| "isNaN PosInfinity = False"
| "isNaN NegInfinity = False"

text \<open>\<^verbatim>\<open>const sections = ['A', 'B', 'C']\<close>\<close>

definition sections :: "string list" where
  "sections = [''A'', ''B'', ''C'']"

text \<open>\<^verbatim>\<open>sections.includes(section)\<close>: only a string is equal to a string.\<close>

fun js_includes :: "string list \<Rightarrow> jsval \<Rightarrow> bool" where
  "js_includes xs (JStr s) = (s \<in> set xs)"
| "js_includes xs JUndefined = False"
| "js_includes xs JNull = False"
| "js_includes xs (JBool b) = False"
| "js_includes xs (JNum n) = False"

section \<open>Persisted documents\<close>

record item =
  item_size :: numval
  item_quantity :: numval

datatype txn_type = IN | OUT | UPLOAD

text \<open>
  \<open>transaction\<close> is the object a route passes to \<^verbatim>\<open>logTransaction\<close>;
  \<open>log_entry\<close> is \<^verbatim>\<open>{...transaction, timestamp}\<close>. The timestamp is the
  clock reading that \<^verbatim>\<open>toISOString\<close> renders.
\<close>

record transaction =
  txn_section :: string
  txn_size :: numval
  txn_quantity :: numval
  txn_type :: txn_type

record log_entry = transaction +
  timestamp :: int

text \<open>
  What \<^verbatim>\<open>JSON.parse\<close> reads back from what \<^verbatim>\<open>JSON.stringify\<close> wrote:
  a finite number is itself, NaN and the infinities are \<^verbatim>\<open>null\<close>. The stock
  documents, the log and the response bodies are written so.
\<close>

fun JSON_number :: "number \<Rightarrow> numval" where
  "JSON_number (Integer n) = Num (Integer n)"
| "JSON_number NaN = Null"
| "JSON_number PosInfinity = Null"
| "JSON_number NegInfinity = Null"

fun JSON_numval :: "numval \<Rightarrow> numval" where
  "JSON_numval Null = Null"
| "JSON_numval (Num n) = JSON_number n"

definition JSON_item :: "item \<Rightarrow> item" where
  "JSON_item x =
     \<lparr>item_size = JSON_numval (item_size x), item_quantity = JSON_numval (item_quantity x)\<rparr>"

definition JSON_entry :: "log_entry \<Rightarrow> log_entry" where
  "JSON_entry e =
     e\<lparr>txn_size := JSON_numval (txn_size e), txn_quantity := JSON_numval (txn_quantity e)\<rparr>"

text \<open>
  A file holds text that \<^verbatim>\<open>JSON.parse\<close> accepts, yielding a value, or text it
  rejects; a path with no file maps to \<open>None\<close>.
\<close>

datatype 'a content = Garbled | Json 'a

datatype error = ENOENT | SyntaxError

text \<open>
  A row of \<^verbatim>\<open>results\<close> as the \<^verbatim>\<open>'data'\<close> listener of the upload route
  builds it from a CSV record: what \<^verbatim>\<open>parseInt\<close> returns for the two cells
  (NaN where the cell does not start with a number, Infinity for a cell of more
  digits than a double holds).
\<close>

record row =
  row_size :: number
  row_quantity :: number

text \<open>
  An uploaded file as the client sends it: the extension of its original name and
  its rows. \<open>upload_path\<close> is the name multer's \<^verbatim>\<open>filename\<close> callback builds,
  \<^verbatim>\<open>'file-' + Date.now() + extname\<close>.
\<close>

record upload_file =
  extname :: string
  rows :: "row list"

type_synonym upload_path = "int \<times> string"

text \<open>
  The state: the stock document of each section (keyed by the section that
  \<^verbatim>\<open>data/stock_${section}.json\<close> names), the transaction log, the files under
  \<^verbatim>\<open>uploads/\<close>, and the system clock as the sequence of its readings with the
  number of readings taken so far.
\<close>

record state =
  stock_files :: "string \<Rightarrow> item list content option"
  log_file :: "log_entry list content option"
  uploads :: "upload_path \<Rightarrow> row list option"
  clock :: "nat \<Rightarrow> int"
  reads :: nat

text \<open>
  A response: status 400 with the error message, or the body
  \<^verbatim>\<open>{success: true, stockData}\<close> as the client parses it; \<open>Uncaught\<close> is an
  exception no handler takes.
\<close>

datatype response =
    Status400 string
  | Success "item list"
  | Uncaught

section \<open>Helper functions\<close>

definition readFileSync :: "'a content option \<Rightarrow> error + 'a content" where
  "readFileSync f = (case f of None \<Rightarrow> Inl ENOENT | Some c \<Rightarrow> Inr c)"

definition JSON_parse :: "'a content \<Rightarrow> error + 'a" where
  "JSON_parse c = (case c of Garbled \<Rightarrow> Inl SyntaxError | Json v \<Rightarrow> Inr v)"

text \<open>The body of the \<^verbatim>\<open>try\<close> block of \<^verbatim>\<open>getStockData\<close>.\<close>

definition getStockData_try :: "state \<Rightarrow> string \<Rightarrow> error + item list" where
  "getStockData_try st section =
     (case readFileSync (stock_files st section) of
        Inl e \<Rightarrow> Inl e
      | Inr data \<Rightarrow> JSON_parse data)"

text \<open>\<^verbatim>\<open>getStockData\<close>: the \<^verbatim>\<open>catch\<close> returns \<^verbatim>\<open>[]\<close>.\<close>

definition getStockData :: "state \<Rightarrow> string \<Rightarrow> item list" where
  "getStockData st section =
     (case getStockData_try st section of
        Inl e \<Rightarrow> []
      | Inr data \<Rightarrow> data)"

text \<open>
  \<^verbatim>\<open>fs.writeFileSync\<close> creates or overwrites the file with the JSON text of the
  list. It is taken to succeed (a disk that refuses a write is not part of the
  state), so the \<^verbatim>\<open>catch\<close> of \<^verbatim>\<open>saveStockData\<close> has no branch here.
\<close>

definition saveStockData :: "state \<Rightarrow> string \<Rightarrow> item list \<Rightarrow> state" where
  "saveStockData st section data =
     st\<lparr>stock_files := (stock_files st)(section := Some (Json (map JSON_item data)))\<rparr>"

text \<open>\<^verbatim>\<open>new Date()\<close> and \<^verbatim>\<open>Date.now()\<close>: the next reading of the clock.\<close>

definition Date_now :: "state \<Rightarrow> int \<times> state" where
  "Date_now st = (clock st (reads st), st\<lparr>reads := Suc (reads st)\<rparr>)"

text \<open>
  \<^verbatim>\<open>logTransaction\<close>: when the read or the parse of the log throws, the
  \<^verbatim>\<open>catch\<close> leaves the log as it is; the clock is read after the parse, and
  the whole list is written back as JSON text.
\<close>

definition logTransaction :: "state \<Rightarrow> transaction \<Rightarrow> state" where
  "logTransaction st transaction =
     (case readFileSync (log_file st) of
        Inl e \<Rightarrow> st
      | Inr logData \<Rightarrow>
          (case JSON_parse logData of
             Inl e \<Rightarrow> st
           | Inr transactions \<Rightarrow>
               (let (now, st1) = Date_now st;
                    transactions =
                      transactions @ [transaction.extend transaction \<lparr>timestamp = now\<rparr>]
                in st1\<lparr>log_file := Some (Json (map JSON_entry transactions))\<rparr>)))"

text \<open>\<^verbatim>\<open>Array.prototype.findIndex\<close>; \<open>None\<close> is its \<open>-1\<close>.\<close>

fun findIndex :: "('a \<Rightarrow> bool) \<Rightarrow> 'a list \<Rightarrow> nat option" where
  "findIndex P [] = None"
| "findIndex P (x # xs) = (if P x then Some 0 else map_option Suc (findIndex P xs))"

section \<open>Routes\<close>

text \<open>
  A route takes the state and the fields of the request and returns the response
  with the state it leaves. A request is handled as one step (the race between
  requests that the service allows is not modelled). Past the guards of a route the
  section is a string of \<^verbatim>\<open>sections\<close> and the size and the quantity are
  numbers, which \<open>str_of\<close> and \<open>num_of\<close> read.
\<close>

text \<open>\<^verbatim>\<open>app.post('/stock/in', ...)\<close>\<close>

definition stock_in :: "state \<Rightarrow> jsval \<Rightarrow> num_field \<Rightarrow> num_field \<Rightarrow> response \<times> state" where
  "stock_in st section size' quantity =
     (if \<not> truthy section \<or> \<not> truthy_field size' \<or> \<not> truthy_field quantity \<or> le_zero quantity
      then (Status400 ''Invalid input data'', st)
      else if \<not> js_includes sections section
      then (Status400 ''Invalid section'', st)
      else
        (let stockData = getStockData st (str_of section);
             itemIndex = findIndex (\<lambda>item. strict_eq (item_size item) (Num (num_of size'))) stockData;
             stockData =
               (case itemIndex of
                  Some i \<Rightarrow>
                    stockData[i := (stockData ! i)
                      \<lparr>item_quantity :=
                         Num (add_number (to_number (item_quantity (stockData ! i))) (num_of quantity))\<rparr>]
                | None \<Rightarrow>
                    stockData @ [\<lparr>item_size = Num (num_of size'),
                                  item_quantity = Num (num_of quantity)\<rparr>]);
             st = saveStockData st (str_of section) stockData;
             st = logTransaction st
                    \<lparr>txn_section = str_of section, txn_size = Num (num_of size'),
                     txn_quantity = Num (num_of quantity), txn_type = IN\<rparr>
         in (Success (map JSON_item stockData), st)))"

text \<open>\<^verbatim>\<open>app.post('/stock/out', ...)\<close>\<close>

definition stock_out :: "state \<Rightarrow> jsval \<Rightarrow> num_field \<Rightarrow> num_field \<Rightarrow> response \<times> state" where
  "stock_out st section size' quantity =
     (if \<not> truthy section \<or> \<not> truthy_field size' \<or> \<not> truthy_field quantity \<or> le_zero quantity
      then (Status400 ''Invalid input data'', st)
      else if \<not> js_includes sections section
      then (Status400 ''Invalid section'', st)
      else
        (let stockData = getStockData st (str_of section);
             itemIndex = findIndex (\<lambda>item. strict_eq (item_size item) (Num (num_of size'))) stockData
         in case itemIndex of
              None \<Rightarrow> (Status400 ''Item not found in stock'', st)
            | Some i \<Rightarrow>
                if lt_number (to_number (item_quantity (stockData ! i))) (num_of quantity)
                then (Status400 ''Not enough stock available'', st)
                else
                  (let stockData =
                         stockData[i := (stockData ! i)
                           \<lparr>item_quantity :=
                              Num (sub_number (to_number (item_quantity (stockData ! i)))
                                     (num_of quantity))\<rparr>];
                       st = saveStockData st (str_of section) stockData;
                       st = logTransaction st
                              \<lparr>txn_section = str_of section, txn_size = Num (num_of size'),
                               txn_quantity = Num (num_of quantity), txn_type = OUT\<rparr>
                   in (Success (map JSON_item stockData), st))))"

text \<open>
  \<^verbatim>\<open>upload.single('file')\<close>, the middleware in front of the upload route: multer
  stores the file of the request, if it has one, under \<^verbatim>\<open>uploads/\<close> with the
  name the \<^verbatim>\<open>filename\<close> callback builds, and sets \<^verbatim>\<open>req.file\<close>.
\<close>

definition multer_single :: "state \<Rightarrow> upload_file option \<Rightarrow> upload_path option \<times> state" where
  "multer_single st file =
     (case file of
        None \<Rightarrow> (None, st)
      | Some f \<Rightarrow>
          (let (now, st1) = Date_now st;
               path = (now, extname f)
           in (Some path, st1\<lparr>uploads := (uploads st1)(path \<mapsto> rows f)\<rparr>)))"

definition unlinkSync :: "state \<Rightarrow> upload_path \<Rightarrow> state" where
  "unlinkSync st path = st\<lparr>uploads := (uploads st)(path := None)\<rparr>"

text \<open>The callback of \<^verbatim>\<open>results.forEach\<close>, on the in-memory list and the state.\<close>

definition upload_row :: "string \<Rightarrow> row \<Rightarrow> item list \<times> state \<Rightarrow> item list \<times> state" where
  "upload_row section item acc =
     (let (stockData, st) = acc
      in if isNaN (row_size item) \<or> isNaN (row_quantity item)
         then (stockData, st)
         else
           (let itemIndex =
                  findIndex (\<lambda>stock. strict_eq (item_size stock) (Num (row_size item))) stockData;
                stockData =
                  (case itemIndex of
                     Some i \<Rightarrow>
                       stockData[i := (stockData ! i)\<lparr>item_quantity := Num (row_quantity item)\<rparr>]
                   | None \<Rightarrow>
                       stockData @ [\<lparr>item_size = Num (row_size item),
                                     item_quantity = Num (row_quantity item)\<rparr>]);
                st = logTransaction st
                       \<lparr>txn_section = section, txn_size = Num (row_size item),
                        txn_quantity = Num (row_quantity item), txn_type = UPLOAD\<rparr>
            in (stockData, st)))"

text \<open>
  The handler of \<^verbatim>\<open>app.post('/upload', ...)\<close>, given \<^verbatim>\<open>req.file\<close>. The read
  stream of a file that is not there emits an error no listener takes.
\<close>

definition upload_handler :: "state \<Rightarrow> jsval \<Rightarrow> upload_path option \<Rightarrow> response \<times> state" where
  "upload_handler st section req_file =
     (if \<not> truthy section \<or> \<not> js_includes sections section
      then (Status400 ''Invalid section'', st)
      else
        (case req_file of
           None \<Rightarrow> (Status400 ''No file uploaded'', st)
         | Some path \<Rightarrow>
             (case uploads st path of
                None \<Rightarrow> (Uncaught, st)
              | Some results \<Rightarrow>
                  (let stockData = getStockData st (str_of section);
                       (stockData, st) = fold (upload_row (str_of section)) results (stockData, st);
                       st = saveStockData st (str_of section) stockData;
                       st = unlinkSync st path
                   in (Success (map JSON_item stockData), st)))))"

text \<open>A request to \<^verbatim>\<open>POST /upload\<close>: the middleware, then the handler.\<close>

definition upload :: "state \<Rightarrow> jsval \<Rightarrow> upload_file option \<Rightarrow> response \<times> state" where
  "upload st section file =
     (let (req_file, st) = multer_single st file
      in upload_handler st section req_file)"

section \<open>Startup and reachable states\<close>

text \<open>
  The module's top level creates the stock document of each section and the log,
  each holding \<^verbatim>\<open>[]\<close>, where there is none.
\<close>

definition bootstrap :: "state \<Rightarrow> state" where
  "bootstrap st =
     (let st = fold (\<lambda>section st.
                  if stock_files st section = None
                  then st\<lparr>stock_files := (stock_files st)(section := Some (Json []))\<rparr>
                  else st) sections st
      in if log_file st = None then st\<lparr>log_file := Some (Json [])\<rparr> else st)"

definition empty_disk :: "(nat \<Rightarrow> int) \<Rightarrow> state" where
  "empty_disk clk =
     \<lparr>stock_files = (\<lambda>section. None), log_file = None, uploads = (\<lambda>path. None),
      clock = clk, reads = 0\<rparr>"

text \<open>
  The states of the service: the first startup on an empty disk, under any clock,
  then any requests, and restarts.
\<close>

inductive reachable :: "state \<Rightarrow> bool" where
  first_startup: "reachable (bootstrap (empty_disk clk))"
| restart: "reachable st \<Longrightarrow> reachable (bootstrap st)"
| post_stock_in: "reachable st \<Longrightarrow> reachable (snd (stock_in st section size' quantity))"
| post_stock_out: "reachable st \<Longrightarrow> reachable (snd (stock_out st section size' quantity))"
| post_upload: "reachable st \<Longrightarrow> reachable (snd (upload st section file))"

section \<open>Observations\<close>

text \<open>
  The quantity a collection holds for a size: that of the first item whose size is
  \<^verbatim>\<open>===\<close> to it.
\<close>

definition quantity_of :: "item list \<Rightarrow> numval \<Rightarrow> numval option" where
  "quantity_of stockData s =
     map_option item_quantity (find (\<lambda>item. strict_eq (item_size item) s) stockData)"

text \<open>The finite sizes of a collection, one for each item that has one.\<close>

fun finite_of :: "numval \<Rightarrow> int list" where
  "finite_of (Num (Integer n)) = [n]"
| "finite_of (Num NaN) = []"
| "finite_of (Num PosInfinity) = []"
| "finite_of (Num NegInfinity) = []"
| "finite_of Null = []"

definition finite_sizes :: "item list \<Rightarrow> int list" where
  "finite_sizes stockData = concat (map finite_of (map item_size stockData))"

text \<open>A quantity that is not below 0 (\<^verbatim>\<open>null\<close> counts as 0).\<close>

definition nonnegative :: "numval \<Rightarrow> bool" where
  "nonnegative v = (\<not> lt_number (to_number v) (Integer 0))"

text \<open>Values and states for the concrete cases below.\<close>

abbreviation int_item :: "int \<Rightarrow> int \<Rightarrow> item" where
  "int_item s q \<equiv> \<lparr>item_size = Num (Integer s), item_quantity = Num (Integer q)\<rparr>"

definition clock0 :: "nat \<Rightarrow> int" where
  "clock0 k = 1000 + int k"

definition state0 :: state where
  "state0 = bootstrap (empty_disk clock0)"

definition csv_file :: "row list \<Rightarrow> upload_file" where
  "csv_file rs = \<lparr>extname = ''.csv'', rows = rs\<rparr>"

definition int_row :: "int \<Rightarrow> int \<Rightarrow> row" where
  "int_row s q = \<lparr>row_size = Integer s, row_quantity = Integer q\<rparr>"

text \<open>Section A holding 5 of size 10, after a stock-in on the first startup.\<close>

definition state_10_5 :: state where
  "state_10_5 = snd (stock_in state0 (JStr ''A'') (FNum (Integer 10)) (FNum (Integer 5)))"

text \<open>The first startup with the document of section B made unreadable since.\<close>

definition state_garbled :: state where
  "state_garbled = state0\<lparr>stock_files := (stock_files state0)(''B'' := Some Garbled)\<rparr>"

text \<open>Section A holding 5 of size 0, after an upload on the first startup.\<close>

definition state_0_5 :: state where
  "state_0_5 = snd (upload state0 (JStr ''A'') (Some (csv_file [int_row 0 5])))"

text \<open>A row whose size cell has more digits than a double holds.\<close>

definition infinite_row :: row where
  "infinite_row = \<lparr>row_size = PosInfinity, row_quantity = Integer 1\<rparr>"

text \<open>Section A after two uploads of that row on the first startup.\<close>

definition state_infinite_twice :: state where
  "state_infinite_twice =
     snd (upload (snd (upload state0 (JStr ''A'') (Some (csv_file [infinite_row]))))
            (JStr ''A'') (Some (csv_file [infinite_row])))"

section \<open>Facts about numbers\<close>

lemma ulp_small: "n < 2 ^ 53 \<Longrightarrow> ulp n = 1"
  by (subst ulp.simps) simp

lemma ulp_pos: "0 < ulp n"
proof (induction n rule: ulp.induct)
  case (1 n)
  show ?case
  proof (cases "n < 2 ^ 53")
    case True
    then show ?thesis by (simp add: ulp_small)
  next
    case False
    with 1 have "0 < ulp (n div 2)" by simp
    with False show ?thesis by (subst ulp.simps) simp
  qed
qed

lemma round_magnitude_small: "n < 2 ^ 53 \<Longrightarrow> round_magnitude n = n"
  by (simp add: round_magnitude_def ulp_small)

lemma round_magnitude_2_53: "round_magnitude (2 ^ 53) = 2 ^ 53"
  by code_simp

lemma round_magnitude_nonneg: "0 \<le> n \<Longrightarrow> 0 \<le> round_magnitude n"
proof -
  assume n: "0 \<le> n"
  have u: "0 < ulp n" by (rule ulp_pos)
  with n have "0 \<le> n div ulp n" by (simp add: pos_imp_zdiv_nonneg_iff)
  with u have "0 \<le> (n div ulp n) * ulp n" "0 \<le> (n div ulp n + 1) * ulp n"
    by simp_all
  then show ?thesis
    by (simp add: round_magnitude_def Let_def)
qed

lemma round_double_safe: "\<bar>n\<bar> \<le> 2 ^ 53 \<Longrightarrow> round_double n = Integer n"
proof -
  assume a: "\<bar>n\<bar> \<le> 2 ^ 53"
  have m: "round_magnitude \<bar>n\<bar> = \<bar>n\<bar>"
  proof (cases "\<bar>n\<bar> = 2 ^ 53")
    case True
    then show ?thesis by (simp only: round_magnitude_2_53)
  next
    case False
    with a have "\<bar>n\<bar> < 2 ^ 53" by simp
    then show ?thesis by (rule round_magnitude_small)
  qed
  have "(2::int) ^ 53 < 2 ^ 1024" by simp
  with a have "\<not> (2::int) ^ 1024 \<le> \<bar>n\<bar>" by linarith
  with m show ?thesis
    by (simp only: round_double_def Let_def if_False) (simp split: if_splits)
qed

lemma round_double_nonneg: "0 \<le> n \<Longrightarrow> \<not> lt_number (round_double n) (Integer 0)"
  using round_magnitude_nonneg [of "\<bar>n\<bar>"]
  by (simp add: round_double_def Let_def)

lemma isNaN_iff: "isNaN a \<longleftrightarrow> a = NaN"
  by (cases a) auto

lemma strict_eq_Integer [simp]: "strict_eq v (Num (Integer n)) \<longleftrightarrow> v = Num (Integer n)"
  by (cases v) auto

lemma strict_eq_Num: "strict_eq v (Num a) \<Longrightarrow> v = Num a"
  by (cases v) auto

lemma strict_eq_refl: "\<not> isNaN a \<Longrightarrow> strict_eq (Num a) (Num a)"
  by (cases a) auto

lemma JSON_numval_idem [simp]: "JSON_numval (JSON_numval v) = JSON_numval v"
proof (cases v)
  case Null
  then show ?thesis by simp
next
  case (Num n)
  then show ?thesis by (cases n) auto
qed

lemma JSON_numval_JSON_number [simp]: "JSON_numval (JSON_number n) = JSON_number n"
  by (cases n) auto

lemma JSON_numval_eq_Integer [simp]: "JSON_numval v = Num (Integer n) \<longleftrightarrow> v = Num (Integer n)"
proof (cases v)
  case Null
  then show ?thesis by simp
next
  case (Num m)
  then show ?thesis by (cases m) auto
qed

lemma strict_eq_JSON_infinite:
  "JSON_number s = Null \<Longrightarrow> \<not> strict_eq (JSON_numval v) (Num s)"
proof (cases v)
  case Null
  then show ?thesis by simp
next
  case (Num m)
  assume "JSON_number s = Null"
  with Num show ?thesis by (cases m; cases s) auto
qed

lemma nonnegative_add:
  "nonnegative v \<Longrightarrow> truthy_number q \<Longrightarrow> \<not> le_zero (FNum q) \<Longrightarrow>
   nonnegative (Num (add_number (to_number v) q))"
  unfolding nonnegative_def
  by (cases "to_number v"; cases q) (auto simp add: round_double_nonneg)

lemma nonnegative_sub:
  "\<not> lt_number (to_number v) q \<Longrightarrow> truthy_number q \<Longrightarrow> \<not> le_zero (FNum q) \<Longrightarrow>
   nonnegative (Num (sub_number (to_number v) q))"
  unfolding nonnegative_def
  by (cases "to_number v"; cases q) (auto simp add: round_double_nonneg)

lemma nonnegative_field:
  "truthy_number q \<Longrightarrow> \<not> le_zero (FNum q) \<Longrightarrow> nonnegative (Num q)"
  unfolding nonnegative_def by (cases q) auto

lemma nonnegative_JSON_number: "nonnegative (Num n) \<Longrightarrow> nonnegative (JSON_number n)"
  unfolding nonnegative_def by (cases n) auto

lemma nonnegative_JSON: "nonnegative v \<Longrightarrow> nonnegative (JSON_numval v)"
  by (cases v) (auto simp add: nonnegative_JSON_number)

section \<open>Facts about lists of items\<close>

lemma findIndex_None_iff: "findIndex P xs = None \<longleftrightarrow> (\<forall>x\<in>set xs. \<not> P x)"
  by (induction xs) auto

lemma findIndex_Some_D: "findIndex P xs = Some i \<Longrightarrow> i < length xs \<and> P (xs ! i)"
  by (induction xs arbitrary: i) (auto split: if_splits)

lemma findIndex_find: "find P xs = map_option (\<lambda>i. xs ! i) (findIndex P xs)"
  by (induction xs) (auto simp: option.map_comp comp_def)

lemma findIndex_cong: "(\<And>x. x \<in> set xs \<Longrightarrow> P x = Q x) \<Longrightarrow> findIndex P xs = findIndex Q xs"
  by (induction xs) auto

lemma findIndex_map: "findIndex P (map f xs) = findIndex (\<lambda>x. P (f x)) xs"
  by (induction xs) auto

lemma quantity_of_findIndex:
  "quantity_of xs s =
     map_option (\<lambda>i. item_quantity (xs ! i)) (findIndex (\<lambda>item. strict_eq (item_size item) s) xs)"
  by (simp add: quantity_of_def findIndex_find option.map_comp comp_def)

lemma JSON_item_simps [simp]:
  "item_size (JSON_item x) = JSON_numval (item_size x)"
  "item_quantity (JSON_item x) = JSON_numval (item_quantity x)"
  by (simp_all add: JSON_item_def)

lemma JSON_item_idem [simp]: "JSON_item (JSON_item x) = JSON_item x"
  by (simp add: JSON_item_def)

lemma JSON_item_comp [simp]: "JSON_item \<circ> JSON_item = JSON_item"
  by (rule ext) simp

lemma JSON_item_quantity_update [simp]:
  "JSON_item (x\<lparr>item_quantity := v\<rparr>) = (JSON_item x)\<lparr>item_quantity := JSON_numval v\<rparr>"
  by (simp add: JSON_item_def)

lemma JSON_item_record [simp]:
  "JSON_item \<lparr>item_size = a, item_quantity = b\<rparr> =
     \<lparr>item_size = JSON_numval a, item_quantity = JSON_numval b\<rparr>"
  by (simp add: JSON_item_def)

lemma JSON_entry_idem [simp]: "JSON_entry (JSON_entry e) = JSON_entry e"
  by (simp add: JSON_entry_def)

lemma JSON_entry_extend:
  "JSON_entry (transaction.extend
      \<lparr>txn_section = sec, txn_size = Num s, txn_quantity = Num q, txn_type = ty\<rparr>
      \<lparr>timestamp = now\<rparr>) =
   \<lparr>txn_section = sec, txn_size = JSON_number s, txn_quantity = JSON_number q, txn_type = ty,
    timestamp = now\<rparr>"
  by (simp add: JSON_entry_def transaction.defs)

lemma JSON_entry_stable:
  "JSON_entry \<lparr>txn_section = sec, txn_size = JSON_number s, txn_quantity = JSON_number q,
     txn_type = ty, timestamp = now\<rparr> =
   \<lparr>txn_section = sec, txn_size = JSON_number s, txn_quantity = JSON_number q, txn_type = ty,
    timestamp = now\<rparr>"
  by (simp add: JSON_entry_def)

lemma JSON_entry_upload_entries:
  "map JSON_entry (map (\<lambda>(k, item).
        \<lparr>txn_section = sec, txn_size = JSON_number (row_size item),
         txn_quantity = JSON_number (row_quantity item), txn_type = UPLOAD,
         timestamp = clk k\<rparr>) ps) =
   map (\<lambda>(k, item).
        \<lparr>txn_section = sec, txn_size = JSON_number (row_size item),
         txn_quantity = JSON_number (row_quantity item), txn_type = UPLOAD,
         timestamp = clk k\<rparr>) ps"
  by (induction ps) (auto simp add: JSON_entry_stable)

lemma quantity_of_JSON:
  "quantity_of (map JSON_item xs) (Num (Integer n)) =
     map_option JSON_numval (quantity_of xs (Num (Integer n)))"
  by (induction xs) (auto simp add: quantity_of_def)

lemma quantity_of_update:
  "findIndex (\<lambda>item. strict_eq (item_size item) k) xs = Some i \<Longrightarrow>
   quantity_of (xs[i := (xs ! i)\<lparr>item_quantity := v\<rparr>]) k = Some v"
proof (induction xs arbitrary: i)
  case Nil
  then show ?case by simp
next
  case (Cons x xs)
  show ?case
  proof (cases "strict_eq (item_size x) k")
    case True
    with Cons.prems show ?thesis by (simp add: quantity_of_def)
  next
    case False
    with Cons.prems obtain j where
      j: "findIndex (\<lambda>item. strict_eq (item_size item) k) xs = Some j" "i = Suc j"
      by auto
    from Cons.IH [OF j(1)] False j(2) show ?thesis
      by (simp add: quantity_of_def)
  qed
qed

lemma quantity_of_append:
  "findIndex (\<lambda>item. strict_eq (item_size item) k) xs = None \<Longrightarrow> strict_eq k' k \<Longrightarrow>
   quantity_of (xs @ [\<lparr>item_size = k', item_quantity = v\<rparr>]) k = Some v"
  by (induction xs) (auto simp add: quantity_of_def split: if_splits)

lemma quantity_of_append_found:
  "quantity_of xs k \<noteq> None \<Longrightarrow> quantity_of (xs @ ys) k = quantity_of xs k"
  by (induction xs) (auto simp add: quantity_of_def)

lemma quantity_of_JSON_Null:
  assumes "quantity_of ys (Num s) \<noteq> None" and "JSON_number s = Null"
  shows "quantity_of (map JSON_item ys) Null \<noteq> None"
proof -
  from assms(1) obtain x where x: "x \<in> set ys" "strict_eq (item_size x) (Num s)"
    by (auto simp add: quantity_of_def find_None_iff)
  from x(2) have "item_size x = Num s" by (rule strict_eq_Num)
  with assms(2) have "strict_eq (item_size (JSON_item x)) Null" by simp
  with x(1) show ?thesis
    by (auto simp add: quantity_of_def find_None_iff)
qed

lemma findIndex_update:
  "findIndex (\<lambda>item. strict_eq (item_size item) k) xs = Some i \<Longrightarrow>
   findIndex (\<lambda>item. strict_eq (item_size item) k) (xs[i := (xs ! i)\<lparr>item_quantity := v\<rparr>]) = Some i"
proof (induction xs arbitrary: i)
  case Nil
  then show ?case by simp
next
  case (Cons x xs)
  then show ?case
    by (cases "strict_eq (item_size x) k") auto
qed

lemma findIndex_append:
  "findIndex (\<lambda>item. strict_eq (item_size item) k) xs = None \<Longrightarrow> strict_eq k' k \<Longrightarrow>
   findIndex (\<lambda>item. strict_eq (item_size item) k) (xs @ [\<lparr>item_size = k', item_quantity = v\<rparr>]) =
     Some (length xs)"
  by (induction xs) (auto split: if_splits)

lemma findIndex_JSON_infinite:
  "JSON_number s = Null \<Longrightarrow>
   findIndex (\<lambda>stock. strict_eq (item_size stock) (Num s)) (map JSON_item ys) = None"
  by (simp add: findIndex_None_iff strict_eq_JSON_infinite)

lemma finite_of_JSON [simp]: "finite_of (JSON_numval v) = finite_of v"
proof (cases v)
  case Null
  then show ?thesis by simp
next
  case (Num m)
  then show ?thesis by (cases m) auto
qed

lemma finite_sizes_simps [simp]:
  "finite_sizes [] = []"
  "finite_sizes (x # xs) = finite_of (item_size x) @ finite_sizes xs"
  "finite_sizes (xs @ ys) = finite_sizes xs @ finite_sizes ys"
  by (simp_all add: finite_sizes_def)

lemma finite_sizes_JSON [simp]: "finite_sizes (map JSON_item xs) = finite_sizes xs"
  by (induction xs) auto

lemma finite_of_iff [simp]: "n \<in> set (finite_of v) \<longleftrightarrow> v = Num (Integer n)"
proof (cases v)
  case Null
  then show ?thesis by simp
next
  case (Num m)
  then show ?thesis by (cases m) auto
qed

lemma finite_sizes_iff:
  "n \<in> set (finite_sizes xs) \<longleftrightarrow> (\<exists>x\<in>set xs. item_size x = Num (Integer n))"
  by (induction xs) auto

lemma sizes_update:
  "i < length xs \<Longrightarrow> map item_size (xs[i := (xs ! i)\<lparr>item_quantity := v\<rparr>]) = map item_size xs"
  by (simp add: map_update list_update_same_conv)

lemma finite_sizes_update:
  "i < length xs \<Longrightarrow> finite_sizes (xs[i := (xs ! i)\<lparr>item_quantity := v\<rparr>]) = finite_sizes xs"
  by (simp add: finite_sizes_def sizes_update)

lemma distinct_finite_sizes_append:
  assumes "findIndex (\<lambda>item. strict_eq (item_size item) (Num k)) xs = None"
    and "distinct (finite_sizes xs)"
  shows "distinct (finite_sizes (xs @ [\<lparr>item_size = Num k, item_quantity = v\<rparr>]))"
proof (cases k)
  case (Integer n)
  with assms(1) have "n \<notin> set (finite_sizes xs)"
    by (auto simp add: findIndex_None_iff finite_sizes_iff)
  with assms(2) Integer show ?thesis
    by simp
qed (use assms(2) in simp_all)

lemma quantity_of_member:
  "distinct (finite_sizes xs) \<Longrightarrow> x \<in> set xs \<Longrightarrow> item_size x = Num (Integer n) \<Longrightarrow>
   quantity_of xs (Num (Integer n)) = Some (item_quantity x)"
proof (induction xs)
  case Nil
  then show ?case by simp
next
  case (Cons y ys)
  show ?case
  proof (cases "item_size y = Num (Integer n)")
    case True
    with Cons.prems have "n \<notin> set (finite_sizes ys)"
      by simp
    with Cons.prems True have "x = y"
      by (auto simp add: finite_sizes_iff)
    with True show ?thesis by (simp add: quantity_of_def)
  next
    case False
    with Cons.prems have "distinct (finite_sizes ys)" "x \<in> set ys"
      by auto
    from Cons.IH [OF this Cons.prems(3)] False show ?thesis
      by (simp add: quantity_of_def)
  qed
qed

lemma nonnegative_map_JSON:
  "\<forall>x\<in>set xs. nonnegative (item_quantity x) \<Longrightarrow>
   \<forall>x\<in>set (map JSON_item xs). nonnegative (item_quantity x)"
  by (auto simp add: nonnegative_JSON)

lemma nonnegative_update:
  "\<forall>x\<in>set xs. nonnegative (item_quantity x) \<Longrightarrow> nonnegative v \<Longrightarrow>
   \<forall>x\<in>set (xs[i := (xs ! i)\<lparr>item_quantity := v\<rparr>]). nonnegative (item_quantity x)"
  using set_update_subset_insert [of xs i "(xs ! i)\<lparr>item_quantity := v\<rparr>"] by auto

section \<open>Facts about the helper functions\<close>

lemma section_valid:
  "section \<in> set sections \<Longrightarrow> truthy (JStr section) \<and> js_includes sections (JStr section)"
  by (auto simp add: sections_def)

lemma getStockData_cases:
  "getStockData st section = (case stock_files st section of Some (Json data) \<Rightarrow> data | _ \<Rightarrow> [])"
  by (simp add: getStockData_def getStockData_try_def readFileSync_def JSON_parse_def
      split: option.splits content.splits)

lemma getStockData_saveStockData:
  "getStockData (saveStockData st section data) section' =
     (if section' = section then map JSON_item data else getStockData st section')"
  by (simp add: getStockData_cases saveStockData_def)

lemma getStockData_unlinkSync: "getStockData (unlinkSync st path) sec = getStockData st sec"
  by (simp add: getStockData_cases unlinkSync_def)

lemma logTransaction_readable:
  "log_file st = Some (Json lg) \<Longrightarrow>
   logTransaction st t =
     st\<lparr>reads := Suc (reads st),
        log_file := Some (Json (map JSON_entry
          (lg @ [transaction.extend t \<lparr>timestamp = clock st (reads st)\<rparr>])))\<rparr>"
  by (simp add: logTransaction_def readFileSync_def JSON_parse_def Date_now_def)

lemma logTransaction_unreadable:
  "log_file st = None \<or> log_file st = Some Garbled \<Longrightarrow> logTransaction st t = st"
  by (auto simp add: logTransaction_def readFileSync_def JSON_parse_def)

lemma logTransaction_frame:
  "stock_files (logTransaction st t) = stock_files st"
  "uploads (logTransaction st t) = uploads st"
  "clock (logTransaction st t) = clock st"
  by (simp_all add: logTransaction_def readFileSync_def JSON_parse_def Date_now_def
      split: option.splits content.splits)

lemma getStockData_logTransaction:
  "getStockData (logTransaction st t) section = getStockData st section"
  by (simp add: getStockData_cases logTransaction_frame)

lemma bootstrap_getStockData: "getStockData (bootstrap st) sec = getStockData st sec"
  by (simp add: bootstrap_def sections_def getStockData_cases Let_def split: option.splits)

lemma bootstrap_log:
  "log_file (bootstrap st) = (if log_file st = None then Some (Json []) else log_file st)"
  by (simp add: bootstrap_def sections_def Let_def)

lemma bootstrap_empty_disk:
  "stock_files (bootstrap (empty_disk clk)) = (\<lambda>section. if section \<in> set sections then Some (Json []) else None)"
  "log_file (bootstrap (empty_disk clk)) = Some (Json [])"
  "uploads (bootstrap (empty_disk clk)) = (\<lambda>path. None)"
  "clock (bootstrap (empty_disk clk)) = clk"
  "reads (bootstrap (empty_disk clk)) = 0"
  by (auto simp add: bootstrap_def empty_disk_def sections_def)

section \<open>Facts about stock-in and stock-out\<close>

lemma stock_in_success:
  assumes "section \<in> set sections" and "s \<noteq> 0" and "0 < q"
    and "case quantity_of (getStockData st section) (Num (Integer s)) of
           None \<Rightarrow> c = 0 | Some v \<Rightarrow> v = Num (Integer c)"
    and "\<bar>c + q\<bar> \<le> 2 ^ 53"
  shows "\<exists>stockData st'.
           stock_in st (JStr section) (FNum (Integer s)) (FNum (Integer q)) = (Success stockData, st') \<and>
           getStockData st' section = stockData \<and>
           quantity_of stockData (Num (Integer s)) = Some (Num (Integer (c + q)))"
proof (cases "findIndex (\<lambda>item. strict_eq (item_size item) (Num (Integer s))) (getStockData st section)")
  case None
  with assms section_valid [OF assms(1)] show ?thesis
    by (simp add: stock_in_def Let_def getStockData_logTransaction getStockData_saveStockData
        quantity_of_JSON quantity_of_append quantity_of_findIndex [of "getStockData st section"]
        del: map_append)
next
  case (Some i)
  with assms section_valid [OF assms(1)] show ?thesis
    by (simp add: stock_in_def Let_def getStockData_logTransaction getStockData_saveStockData
        quantity_of_JSON quantity_of_update round_double_safe
        quantity_of_findIndex [of "getStockData st section"])
qed

lemma stock_in_log:
  assumes "log_file st = Some (Json lg)" and "map JSON_entry lg = lg"
    and "stock_in st section size' quantity = (Success stockData, st')"
  shows "log_file st' =
           Some (Json (lg @ [\<lparr>txn_section = str_of section, txn_size = JSON_number (num_of size'),
                             txn_quantity = JSON_number (num_of quantity), txn_type = IN,
                             timestamp = clock st (reads st)\<rparr>]))"
  using assms
  by (auto simp add: stock_in_def Let_def logTransaction_readable saveStockData_def
      JSON_entry_extend split: if_splits)

lemma stock_out_log:
  assumes "log_file st = Some (Json lg)" and "map JSON_entry lg = lg"
    and "stock_out st section size' quantity = (Success stockData, st')"
  shows "log_file st' =
           Some (Json (lg @ [\<lparr>txn_section = str_of section, txn_size = JSON_number (num_of size'),
                             txn_quantity = JSON_number (num_of quantity), txn_type = OUT,
                             timestamp = clock st (reads st)\<rparr>]))"
  using assms
  by (auto simp add: stock_out_def Let_def logTransaction_readable saveStockData_def
      JSON_entry_extend split: if_splits option.splits)

lemma stock_in_result:
  "(\<exists>msg. stock_in st section size' quantity = (Status400 msg, st)) \<or>
   (\<exists>stockData. stock_in st section size' quantity =
      (Success stockData, snd (stock_in st section size' quantity)))"
  by (auto simp add: stock_in_def Let_def)

lemma stock_out_result:
  "(\<exists>msg. stock_out st section size' quantity = (Status400 msg, st)) \<or>
   (\<exists>stockData. stock_out st section size' quantity =
      (Success stockData, snd (stock_out st section size' quantity)))"
  by (auto simp add: stock_out_def Let_def split: option.splits)

lemma stock_in_log_readable:
  assumes "log_file st = Some (Json lg)" and "map JSON_entry lg = lg"
  shows "\<exists>lg'. log_file (snd (stock_in st section size' quantity)) = Some (Json lg') \<and>
               map JSON_entry lg' = lg'"
proof -
  from stock_in_result [of st "section" size' quantity] show ?thesis
  proof
    assume "\<exists>msg. stock_in st section size' quantity = (Status400 msg, st)"
    with assms show ?thesis by auto
  next
    assume "\<exists>stockData. stock_in st section size' quantity =
      (Success stockData, snd (stock_in st section size' quantity))"
    then obtain stockData where "stock_in st section size' quantity =
      (Success stockData, snd (stock_in st section size' quantity))" ..
    from stock_in_log [OF assms this] assms(2) show ?thesis
      by (simp add: JSON_entry_stable)
  qed
qed

lemma stock_out_log_readable:
  assumes "log_file st = Some (Json lg)" and "map JSON_entry lg = lg"
  shows "\<exists>lg'. log_file (snd (stock_out st section size' quantity)) = Some (Json lg') \<and>
               map JSON_entry lg' = lg'"
proof -
  from stock_out_result [of st "section" size' quantity] show ?thesis
  proof
    assume "\<exists>msg. stock_out st section size' quantity = (Status400 msg, st)"
    with assms show ?thesis by auto
  next
    assume "\<exists>stockData. stock_out st section size' quantity =
      (Success stockData, snd (stock_out st section size' quantity))"
    then obtain stockData where "stock_out st section size' quantity =
      (Success stockData, snd (stock_out st section size' quantity))" ..
    from stock_out_log [OF assms this] assms(2) show ?thesis
      by (simp add: JSON_entry_stable)
  qed
qed

lemma stock_in_distinct:
  assumes "\<And>sec. distinct (finite_sizes (getStockData st sec))"
  shows "distinct (finite_sizes (getStockData (snd (stock_in st section size' quantity)) sec))"
proof (cases "findIndex (\<lambda>item. strict_eq (item_size item) (Num (num_of size')))
    (getStockData st (str_of section))")
  case None
  with assms distinct_finite_sizes_append [OF None assms] show ?thesis
    by (simp add: stock_in_def Let_def getStockData_logTransaction getStockData_saveStockData
        del: map_append finite_sizes_simps(3))
next
  case (Some i)
  with assms findIndex_Some_D [OF Some] show ?thesis
    by (simp add: stock_in_def Let_def getStockData_logTransaction getStockData_saveStockData
        finite_sizes_update)
qed

lemma stock_out_distinct:
  assumes "\<And>sec. distinct (finite_sizes (getStockData st sec))"
  shows "distinct (finite_sizes (getStockData (snd (stock_out st section size' quantity)) sec))"
proof (cases "findIndex (\<lambda>item. strict_eq (item_size item) (Num (num_of size')))
    (getStockData st (str_of section))")
  case None
  with assms show ?thesis
    by (simp add: stock_out_def Let_def)
next
  case (Some i)
  with assms findIndex_Some_D [OF Some] show ?thesis
    by (simp add: stock_out_def Let_def getStockData_logTransaction getStockData_saveStockData
        finite_sizes_update)
qed

lemma stock_in_nonneg:
  assumes "\<And>sec. \<forall>x\<in>set (getStockData st sec). nonnegative (item_quantity x)"
  shows "\<forall>x\<in>set (getStockData (snd (stock_in st section size' quantity)) sec).
           nonnegative (item_quantity x)"
proof (cases "\<not> truthy section \<or> \<not> truthy_field size' \<or> \<not> truthy_field quantity \<or>
    le_zero quantity \<or> \<not> js_includes sections section")
  case True
  with assms [of sec] show ?thesis
    by (auto simp add: stock_in_def)
next
  case False
  then have q: "truthy_number (num_of quantity)" "\<not> le_zero (FNum (num_of quantity))"
    by (cases quantity; simp)+
  let ?xs = "getStockData st (str_of section)"
  show ?thesis
  proof (cases "findIndex (\<lambda>item. strict_eq (item_size item) (Num (num_of size'))) ?xs")
    case None
    from assms [of "str_of section"] nonnegative_field [OF q]
    have "\<forall>x\<in>set (?xs @ [\<lparr>item_size = Num (num_of size'),
             item_quantity = Num (num_of quantity)\<rparr>]). nonnegative (item_quantity x)"
      by auto
    from nonnegative_map_JSON [OF this] False None assms [of sec] show ?thesis
      by (simp add: stock_in_def Let_def getStockData_logTransaction getStockData_saveStockData
          del: map_append)
  next
    case (Some i)
    from findIndex_Some_D [OF Some] assms [of "str_of section"]
    have "nonnegative (item_quantity (?xs ! i))"
      by simp
    from nonnegative_update [OF assms [of "str_of section"] nonnegative_add [OF this q], of i]
    have "\<forall>x\<in>set (?xs[i := (?xs ! i)\<lparr>item_quantity :=
            Num (add_number (to_number (item_quantity (?xs ! i))) (num_of quantity))\<rparr>]).
              nonnegative (item_quantity x)" .
    from nonnegative_map_JSON [OF this] False Some assms [of sec] show ?thesis
      by (simp add: stock_in_def Let_def getStockData_logTransaction getStockData_saveStockData
          del: map_update)
  qed
qed

lemma stock_out_nonneg:
  assumes "\<And>sec. \<forall>x\<in>set (getStockData st sec). nonnegative (item_quantity x)"
  shows "\<forall>x\<in>set (getStockData (snd (stock_out st section size' quantity)) sec).
           nonnegative (item_quantity x)"
proof (cases "\<not> truthy section \<or> \<not> truthy_field size' \<or> \<not> truthy_field quantity \<or>
    le_zero quantity \<or> \<not> js_includes sections section")
  case True
  with assms [of sec] show ?thesis
    by (auto simp add: stock_out_def)
next
  case False
  then have q: "truthy_number (num_of quantity)" "\<not> le_zero (FNum (num_of quantity))"
    by (cases quantity; simp)+
  let ?xs = "getStockData st (str_of section)"
  show ?thesis
  proof (cases "findIndex (\<lambda>item. strict_eq (item_size item) (Num (num_of size'))) ?xs")
    case None
    with False assms [of sec] show ?thesis
      by (simp add: stock_out_def Let_def)
  next
    case (Some i)
    show ?thesis
    proof (cases "lt_number (to_number (item_quantity (?xs ! i))) (num_of quantity)")
      case True
      with False Some assms [of sec] show ?thesis
        by (simp add: stock_out_def Let_def)
    next
      case enough: False
      from nonnegative_update [OF assms [of "str_of section"] nonnegative_sub [OF enough q], of i]
      have "\<forall>x\<in>set (?xs[i := (?xs ! i)\<lparr>item_quantity :=
              Num (sub_number (to_number (item_quantity (?xs ! i))) (num_of quantity))\<rparr>]).
                nonnegative (item_quantity x)" .
      from nonnegative_map_JSON [OF this] False Some enough assms [of sec] show ?thesis
        by (simp add: stock_out_def Let_def getStockData_logTransaction
            getStockData_saveStockData del: map_update)
    qed
  qed
qed

section \<open>Facts about the upload\<close>

lemma upload_row_skip:
  "isNaN (row_size item) \<or> isNaN (row_quantity item) \<Longrightarrow> upload_row section item (xs, st) = (xs, st)"
  by (simp add: upload_row_def)

lemma upload_row_frame:
  "stock_files (snd (upload_row section item (xs, st))) = stock_files st"
  "uploads (snd (upload_row section item (xs, st))) = uploads st"
  "clock (snd (upload_row section item (xs, st))) = clock st"
  by (simp_all add: upload_row_def Let_def logTransaction_frame)

lemma upload_row_distinct:
  assumes "distinct (finite_sizes xs)"
  shows "distinct (finite_sizes (fst (upload_row section item (xs, st))))"
proof (cases "findIndex (\<lambda>stock. strict_eq (item_size stock) (Num (row_size item))) xs")
  case None
  with assms distinct_finite_sizes_append [OF None assms] show ?thesis
    by (simp add: upload_row_def Let_def del: finite_sizes_simps(3))
next
  case (Some i)
  with assms findIndex_Some_D [OF Some] show ?thesis
    by (simp add: upload_row_def Let_def finite_sizes_update)
qed

lemma upload_row_log:
  assumes "log_file st = Some (Json lg)" and "map JSON_entry lg = lg"
  shows "log_file (snd (upload_row section item (xs, st))) =
           Some (Json (lg @ (if isNaN (row_size item) \<or> isNaN (row_quantity item) then []
              else [\<lparr>txn_section = section, txn_size = JSON_number (row_size item),
                     txn_quantity = JSON_number (row_quantity item), txn_type = UPLOAD,
                     timestamp = clock st (reads st)\<rparr>])))"
    and "reads (snd (upload_row section item (xs, st))) =
           (if isNaN (row_size item) \<or> isNaN (row_quantity item) then reads st else Suc (reads st))"
  using assms
  by (simp_all add: upload_row_def Let_def logTransaction_readable JSON_entry_extend)

lemma upload_row_idem:
  "fst (upload_row section item (upload_row section item (xs, st))) = fst (upload_row section item (xs, st))"
proof (cases "isNaN (row_size item) \<or> isNaN (row_quantity item)")
  case True
  then show ?thesis by (simp add: upload_row_def)
next
  case False
  then have r: "strict_eq (Num (row_size item)) (Num (row_size item))"
    by (simp add: isNaN_iff)
  show ?thesis
  proof (cases "findIndex (\<lambda>stock. strict_eq (item_size stock) (Num (row_size item))) xs")
    case None
    with False findIndex_append [OF None r] show ?thesis
      by (simp add: upload_row_def Let_def)
  next
    case (Some i)
    with False findIndex_Some_D [OF Some] show ?thesis
      by (simp add: upload_row_def Let_def findIndex_update)
  qed
qed

lemma upload_row_fst_indep:
  "fst (upload_row section item (xs, st)) = fst (upload_row section item (xs, st'))"
  by (simp add: upload_row_def Let_def)

lemma upload_row_twice:
  "fst (upload_row section item (fst (upload_row section item (xs, st)), st')) =
   fst (upload_row section item (xs, st))"
proof -
  have "fst (upload_row section item (fst (upload_row section item (xs, st)), st')) =
        fst (upload_row section item (fst (upload_row section item (xs, st)),
                                      snd (upload_row section item (xs, st))))"
    by (rule upload_row_fst_indep)
  also have "\<dots> = fst (upload_row section item (xs, st))"
    using upload_row_idem [of "section" item xs st] by simp
  finally show ?thesis .
qed

lemma upload_row_quantity:
  assumes "\<not> isNaN (row_size item)" and "\<not> isNaN (row_quantity item)"
  shows "quantity_of (fst (upload_row section item (xs, st))) (Num (row_size item)) =
           Some (Num (row_quantity item))"
proof (cases "findIndex (\<lambda>stock. strict_eq (item_size stock) (Num (row_size item))) xs")
  case None
  with assms quantity_of_append [OF None strict_eq_refl [OF assms(1)]] show ?thesis
    by (simp add: upload_row_def Let_def)
next
  case (Some i)
  with assms quantity_of_update [OF Some] show ?thesis
    by (simp add: upload_row_def Let_def)
qed

lemma upload_row_JSON:
  assumes "row_size item = Integer n"
  shows "map JSON_item (fst (upload_row section item (map JSON_item ys, st))) =
         map JSON_item (fst (upload_row section item (ys, st')))"
proof (cases "findIndex (\<lambda>stock. item_size stock = Num (Integer n)) ys")
  case None
  with assms show ?thesis
    by (simp add: upload_row_def Let_def findIndex_map)
next
  case (Some i)
  with assms findIndex_Some_D [OF Some] show ?thesis
    by (simp add: upload_row_def Let_def findIndex_map map_update)
qed

lemma upload_row_again:
  assumes "\<not> isNaN (row_size item)" and "\<not> isNaN (row_quantity item)"
  shows "quantity_of
           (map JSON_item (fst (upload_row section item
              (map JSON_item (fst (upload_row section item (xs, st))), st'))))
           (JSON_number (row_size item)) =
         quantity_of (map JSON_item (fst (upload_row section item (xs, st))))
           (JSON_number (row_size item))"
proof (cases "JSON_number (row_size item) = Null")
  case False
  then obtain n where n: "row_size item = Integer n"
    by (cases "row_size item") auto
  from upload_row_JSON [OF n, of "section" "fst (upload_row section item (xs, st))" st' st']
    upload_row_twice [of "section" item xs st st']
  show ?thesis by simp
next
  case True
  let ?ys = "fst (upload_row section item (xs, st))"
  from upload_row_quantity [OF assms, of "section" xs st]
  have "quantity_of ?ys (Num (row_size item)) \<noteq> None" by simp
  from quantity_of_JSON_Null [OF this True]
  have found: "quantity_of (map JSON_item ?ys) Null \<noteq> None" .
  from assms findIndex_JSON_infinite [OF True, of ?ys]
  have "fst (upload_row section item (map JSON_item ?ys, st')) =
          map JSON_item ?ys @ [\<lparr>item_size = Num (row_size item),
                                 item_quantity = Num (row_quantity item)\<rparr>]"
    by (simp add: upload_row_def Let_def)
  with True quantity_of_append_found [OF found] show ?thesis
    by simp
qed

lemma fold_upload_row_frame:
  "stock_files (snd (fold (upload_row section) rs (xs, st))) = stock_files st \<and>
   uploads (snd (fold (upload_row section) rs (xs, st))) = uploads st \<and>
   clock (snd (fold (upload_row section) rs (xs, st))) = clock st"
proof (induction rs arbitrary: xs st)
  case Nil
  then show ?case by simp
next
  case (Cons r rs)
  obtain xs' st' where step: "upload_row section r (xs, st) = (xs', st')"
    by (cases "upload_row section r (xs, st)")
  from Cons.IH [of xs' st'] upload_row_frame [of "section" r xs st] step
  show ?case by simp
qed

lemma fold_upload_row_distinct:
  "distinct (finite_sizes xs) \<Longrightarrow>
   distinct (finite_sizes (fst (fold (upload_row section) rs (xs, st))))"
proof (induction rs arbitrary: xs st)
  case Nil
  then show ?case by simp
next
  case (Cons r rs)
  obtain xs' st' where step: "upload_row section r (xs, st) = (xs', st')"
    by (cases "upload_row section r (xs, st)")
  with upload_row_distinct [OF Cons.prems, of "section" r st] have "distinct (finite_sizes xs')"
    by simp
  from Cons.IH [OF this, of st'] step show ?case by simp
qed

lemma fold_upload_row_log:
  "log_file st = Some (Json lg) \<Longrightarrow> map JSON_entry lg = lg \<Longrightarrow>
   log_file (snd (fold (upload_row section) rs (xs, st))) =
     Some (Json (lg @ map (\<lambda>(k, item).
        \<lparr>txn_section = section, txn_size = JSON_number (row_size item),
         txn_quantity = JSON_number (row_quantity item), txn_type = UPLOAD,
         timestamp = clock st k\<rparr>)
       (enumerate (reads st)
          (filter (\<lambda>item. \<not> (isNaN (row_size item) \<or> isNaN (row_quantity item))) rs))))"
proof (induction rs arbitrary: xs st lg)
  case Nil
  then show ?case by simp
next
  case (Cons r rs)
  obtain xs' st' where step: "upload_row section r (xs, st) = (xs', st')"
    by (cases "upload_row section r (xs, st)")
  note l = upload_row_log [OF Cons.prems, of "section" r xs, unfolded step snd_conv]
  from upload_row_frame(3) [of "section" r xs st] step have c: "clock st' = clock st"
    by simp
  have s: "map JSON_entry (lg @ (if isNaN (row_size r) \<or> isNaN (row_quantity r) then []
              else [\<lparr>txn_section = section, txn_size = JSON_number (row_size r),
                     txn_quantity = JSON_number (row_quantity r), txn_type = UPLOAD,
                     timestamp = clock st (reads st)\<rparr>])) =
           lg @ (if isNaN (row_size r) \<or> isNaN (row_quantity r) then []
              else [\<lparr>txn_section = section, txn_size = JSON_number (row_size r),
                     txn_quantity = JSON_number (row_quantity r), txn_type = UPLOAD,
                     timestamp = clock st (reads st)\<rparr>])"
    using Cons.prems(2) by (simp add: JSON_entry_stable)
  from Cons.IH [OF l(1) s, of xs'] l(2) c step show ?case
    by simp
qed

lemma upload_no_file:
  "upload st section None =
     (if \<not> truthy section \<or> \<not> js_includes sections section
      then (Status400 ''Invalid section'', st) else (Status400 ''No file uploaded'', st))"
  by (simp add: upload_def multer_single_def upload_handler_def)

lemma upload_invalid_section:
  "\<not> truthy section \<or> \<not> js_includes sections section \<Longrightarrow>
   upload st section (Some f) =
     (Status400 ''Invalid section'',
      st\<lparr>reads := Suc (reads st),
         uploads := (uploads st)((clock st (reads st), extname f) \<mapsto> rows f)\<rparr>)"
  by (auto simp add: upload_def multer_single_def upload_handler_def Date_now_def Let_def)

lemma upload_valid:
  assumes "truthy section" and "js_includes sections section"
  shows "upload st section (Some f) =
     (let path = (clock st (reads st), extname f);
          st1 = st\<lparr>reads := Suc (reads st), uploads := (uploads st)(path \<mapsto> rows f)\<rparr>;
          r = fold (upload_row (str_of section)) (rows f) (getStockData st (str_of section), st1)
      in (Success (map JSON_item (fst r)),
          unlinkSync (saveStockData (snd r) (str_of section) (fst r)) path))"
  using assms
  by (simp add: upload_def multer_single_def upload_handler_def Date_now_def Let_def split_beta
      getStockData_cases)

lemma upload_one_row:
  assumes "truthy section \<and> js_includes sections section"
  shows "\<exists>st'. upload st section (Some \<lparr>extname = e, rows = [item]\<rparr>) =
                 (Success (map JSON_item
                    (fst (upload_row (str_of section) item (getStockData st (str_of section), st)))),
                  st') \<and>
               getStockData st' (str_of section) =
                 map JSON_item
                   (fst (upload_row (str_of section) item (getStockData st (str_of section), st)))"
  using assms
    upload_row_fst_indep [of "str_of section" item "getStockData st (str_of section)"
      "st\<lparr>reads := Suc (reads st),
          uploads := (uploads st)((clock st (reads st), e) \<mapsto> [item])\<rparr>" st]
  by (simp add: upload_valid Let_def getStockData_unlinkSync getStockData_saveStockData)

lemma upload_log:
  assumes "log_file st = Some (Json lg)" and "map JSON_entry lg = lg"
    and "upload st section (Some f) = (Success stockData, st')"
  shows "log_file st' =
     Some (Json (lg @ map (\<lambda>(k, item).
        \<lparr>txn_section = str_of section, txn_size = JSON_number (row_size item),
         txn_quantity = JSON_number (row_quantity item), txn_type = UPLOAD,
         timestamp = clock st k\<rparr>)
       (enumerate (Suc (reads st))
          (filter (\<lambda>item. \<not> (isNaN (row_size item) \<or> isNaN (row_quantity item))) (rows f)))))"
proof (cases "truthy section \<and> js_includes sections section")
  case False
  with assms(3) show ?thesis
    by (simp add: upload_invalid_section)
next
  case True
  let ?st1 = "st\<lparr>reads := Suc (reads st),
                  uploads := (uploads st)((clock st (reads st), extname f) \<mapsto> rows f)\<rparr>"
  have "log_file ?st1 = Some (Json lg)"
    using assms(1) by simp
  from fold_upload_row_log [OF this assms(2), of "str_of section" "rows f"
      "getStockData st (str_of section)"] assms(3) True
  show ?thesis
    by (auto simp add: upload_valid Let_def unlinkSync_def saveStockData_def)
qed

lemma upload_log_readable:
  assumes "log_file st = Some (Json lg)" and "map JSON_entry lg = lg"
  shows "\<exists>lg'. log_file (snd (upload st section file)) = Some (Json lg') \<and>
               map JSON_entry lg' = lg'"
proof (cases "file")
  case None
  with assms show ?thesis by (simp add: upload_no_file)
next
  case (Some f)
  show ?thesis
  proof (cases "truthy section \<and> js_includes sections section")
    case False
    with assms Some show ?thesis by (simp add: upload_invalid_section)
  next
    case True
    then obtain stockData st' where u: "upload st section (Some f) = (Success stockData, st')"
      by (simp add: upload_valid Let_def)
    have "\<exists>lg'. log_file st' = Some (Json lg') \<and> map JSON_entry lg' = lg'"
    proof (intro exI conjI)
      show "log_file st' =
        Some (Json (lg @ map (\<lambda>(k, item).
          \<lparr>txn_section = str_of section, txn_size = JSON_number (row_size item),
           txn_quantity = JSON_number (row_quantity item), txn_type = UPLOAD,
           timestamp = clock st k\<rparr>)
         (enumerate (Suc (reads st))
            (filter (\<lambda>item. \<not> (isNaN (row_size item) \<or> isNaN (row_quantity item))) (rows f)))))"
        by (rule upload_log [OF assms u])
    next
      show "map JSON_entry (lg @ map (\<lambda>(k, item).
          \<lparr>txn_section = str_of section, txn_size = JSON_number (row_size item),
           txn_quantity = JSON_number (row_quantity item), txn_type = UPLOAD,
           timestamp = clock st k\<rparr>)
         (enumerate (Suc (reads st))
            (filter (\<lambda>item. \<not> (isNaN (row_size item) \<or> isNaN (row_quantity item))) (rows f)))) =
        lg @ map (\<lambda>(k, item).
          \<lparr>txn_section = str_of section, txn_size = JSON_number (row_size item),
           txn_quantity = JSON_number (row_quantity item), txn_type = UPLOAD,
           timestamp = clock st k\<rparr>)
         (enumerate (Suc (reads st))
            (filter (\<lambda>item. \<not> (isNaN (row_size item) \<or> isNaN (row_quantity item))) (rows f)))"
        by (simp only: map_append assms(2) JSON_entry_upload_entries)
    qed
    with u Some show ?thesis by simp
  qed
qed

lemma upload_distinct:
  assumes "\<And>sec. distinct (finite_sizes (getStockData st sec))"
  shows "distinct (finite_sizes (getStockData (snd (upload st section file)) sec))"
proof (cases "file")
  case None
  with assms show ?thesis by (simp add: upload_no_file)
next
  case (Some f)
  show ?thesis
  proof (cases "truthy section \<and> js_includes sections section")
    case False
    with assms [of sec] Some show ?thesis
      by (simp add: upload_invalid_section getStockData_cases)
  next
    case True
    let ?st1 = "st\<lparr>reads := Suc (reads st),
                    uploads := (uploads st)((clock st (reads st), extname f) \<mapsto> rows f)\<rparr>"
    note fr = fold_upload_row_frame [of "str_of section" "rows f" "getStockData st (str_of section)" ?st1]
    note di = fold_upload_row_distinct [OF assms [of "str_of section"], of "str_of section" "rows f" ?st1]
    from True Some fr di assms [of sec] show ?thesis
      by (simp add: upload_valid Let_def unlinkSync_def saveStockData_def getStockData_cases)
  qed
qed

section \<open>Facts about reachable states\<close>

lemma reachable_log_readable:
  "reachable st \<Longrightarrow> \<exists>lg. log_file st = Some (Json lg) \<and> map JSON_entry lg = lg"
proof (induction rule: reachable.induct)
  case (first_startup clk)
  then show ?case by (simp add: bootstrap_empty_disk)
next
  case (restart st)
  then show ?case by (auto simp add: bootstrap_log)
next
  case (post_stock_in st sec size' quantity)
  then show ?case by (auto intro: stock_in_log_readable)
next
  case (post_stock_out st sec size' quantity)
  then show ?case by (auto intro: stock_out_log_readable)
next
  case (post_upload st sec fl)
  then show ?case by (auto intro: upload_log_readable)
qed

lemma reachable_state0: "reachable state0"
  by (simp add: state0_def reachable.first_startup)

lemma reachable_state_10_5: "reachable state_10_5"
  by (simp add: state_10_5_def reachable_state0 reachable.post_stock_in)

section \<open>Loading a section\<close>

text \<open>
  C9. For every section, \<^verbatim>\<open>getStockData\<close> returns the full list its document
  holds, and returns the empty list, never an error, when the document is missing
  (the read fails) or unreadable (the parse fails).
\<close>

theorem getStockData_load:
  "(\<forall>data. stock_files st section = Some (Json data) \<longrightarrow>
      getStockData_try st section = Inr data \<and> getStockData st section = data) \<and>
   (stock_files st section = None \<longrightarrow>
      getStockData_try st section = Inl ENOENT \<and> getStockData st section = []) \<and>
   (stock_files st section = Some Garbled \<longrightarrow>
      getStockData_try st section = Inl SyntaxError \<and> getStockData st section = [])"
  by (simp add: getStockData_def getStockData_try_def readFileSync_def JSON_parse_def)

theorem getStockData_load_witness:
  "stock_files state_10_5 ''A'' = Some (Json [int_item 10 5]) \<and>
   getStockData state_10_5 ''A'' = [int_item 10 5] \<and>
   stock_files state0 ''Z'' = None \<and> getStockData state0 ''Z'' = [] \<and>
   stock_files state_garbled ''B'' = Some Garbled \<and> getStockData state_garbled ''B'' = []"
proof -
  have a: "stock_files state_10_5 ''A'' = Some (Json [int_item 10 5])"
    by code_simp
  have z: "stock_files state0 ''Z'' = None"
    by code_simp
  have b: "stock_files state_garbled ''B'' = Some Garbled"
    by (simp add: state_garbled_def)
  from a z b getStockData_load [of state_10_5 "''A''"] getStockData_load [of state0 "''Z''"]
    getStockData_load [of state_garbled "''B''"]
  show ?thesis by blast
qed

section \<open>Input validation\<close>

text \<open>
  C10. Stock-in and stock-out answer 400 \<^verbatim>\<open>Invalid input data\<close> to any request
  whose section, size or quantity is falsy (missing, null, false, zero, NaN or the
  empty string), whatever the state, and leave the state as it was; so a request
  with size 0 is rejected.
\<close>

theorem falsy_field_rejected:
  assumes "section \<in> {JUndefined, JNull, JBool False, JNum 0, JStr []} \<or>
           size' \<in> {FMissing, FNull, FFalse, FEmpty, FNum (Integer 0), FNum NaN} \<or>
           quantity \<in> {FMissing, FNull, FFalse, FEmpty, FNum (Integer 0), FNum NaN}"
  shows "stock_in st section size' quantity = (Status400 ''Invalid input data'', st) \<and>
         stock_out st section size' quantity = (Status400 ''Invalid input data'', st)"
proof -
  have "\<not> truthy section \<or> \<not> truthy_field size' \<or> \<not> truthy_field quantity"
    using assms by auto
  then show ?thesis
    by (auto simp add: stock_in_def stock_out_def)
qed

theorem falsy_field_rejected_witness:
  "FNum (Integer 0) \<in> {FMissing, FNull, FFalse, FEmpty, FNum (Integer 0), FNum NaN} \<and>
   stock_in state_10_5 (JStr ''A'') (FNum (Integer 0)) (FNum (Integer 5)) =
     (Status400 ''Invalid input data'', state_10_5) \<and>
   stock_out state_10_5 (JStr ''A'') (FNum (Integer 0)) (FNum (Integer 5)) =
     (Status400 ''Invalid input data'', state_10_5)"
  using falsy_field_rejected [of "JStr ''A''" "FNum (Integer 0)" "FNum (Integer 5)" state_10_5]
  by simp

section \<open>Stock-out failures\<close>







section \<open>Stock-in adds\<close>




section \<open>Bulk set\<close>

text \<open>
  C6. For every known section and every row whose size and quantity are not NaN,
  applying the row twice gives the final quantity that applying it once gives: an
  upload holding the row twice returns the collection that an upload holding it
  once returns, and after a second upload of the row the collection returned and
  persisted holds for the row's size the quantity the first upload left. Where the
  row's size is finite the second upload returns the very collection the first
  returned, and in it the size has the row's quantity.
\<close>

theorem bulk_set_idempotent:
  assumes "section \<in> set sections"
    and "\<not> isNaN (row_size item)" and "\<not> isNaN (row_quantity item)"
  shows "\<exists>stockData st1 stockData2 st2.
           upload st (JStr section) (Some \<lparr>extname = e1, rows = [item]\<rparr>) = (Success stockData, st1) \<and>
           upload st1 (JStr section) (Some \<lparr>extname = e2, rows = [item]\<rparr>) = (Success stockData2, st2) \<and>
           getStockData st2 section = stockData2 \<and>
           fst (upload st (JStr section) (Some \<lparr>extname = e3, rows = [item, item]\<rparr>)) = Success stockData \<and>
           quantity_of stockData2 (JSON_number (row_size item)) =
             quantity_of stockData (JSON_number (row_size item)) \<and>
           (\<forall>n. row_size item = Integer n \<longrightarrow>
              stockData2 = stockData \<and>
              quantity_of stockData (Num (Integer n)) = Some (JSON_number (row_quantity item)))"
proof -
  note v = section_valid [OF assms(1)]
  let ?xs = "getStockData st section"
  let ?ys = "fst (upload_row section item (?xs, st))"
  from upload_one_row [OF v, of st e1 item] obtain st1 where u1:
    "upload st (JStr section) (Some \<lparr>extname = e1, rows = [item]\<rparr>) = (Success (map JSON_item ?ys), st1)"
    "getStockData st1 section = map JSON_item ?ys"
    by auto
  let ?zs = "fst (upload_row section item (map JSON_item ?ys, st1))"
  from upload_one_row [OF v, of st1 e2 item] u1(2) obtain st2 where u2:
    "upload st1 (JStr section) (Some \<lparr>extname = e2, rows = [item]\<rparr>) = (Success (map JSON_item ?zs), st2)"
    "getStockData st2 section = map JSON_item ?zs"
    by auto
  have u3: "fst (upload st (JStr section) (Some \<lparr>extname = e3, rows = [item, item]\<rparr>)) =
      Success (map JSON_item ?ys)"
    using v
      upload_row_idem [of "section" item ?xs
        "st\<lparr>reads := Suc (reads st),
            uploads := (uploads st)((clock st (reads st), e3) \<mapsto> [item, item])\<rparr>"]
      upload_row_fst_indep [of "section" item ?xs
        "st\<lparr>reads := Suc (reads st),
            uploads := (uploads st)((clock st (reads st), e3) \<mapsto> [item, item])\<rparr>" st]
    by (simp add: upload_valid Let_def)
  have q: "quantity_of (map JSON_item ?zs) (JSON_number (row_size item)) =
           quantity_of (map JSON_item ?ys) (JSON_number (row_size item))"
    using assms(2,3) by (rule upload_row_again)
  have f: "map JSON_item ?zs = map JSON_item ?ys \<and>
           quantity_of (map JSON_item ?ys) (Num (Integer n)) = Some (JSON_number (row_quantity item))"
    if n: "row_size item = Integer n" for n
  proof
    from upload_row_JSON [OF n, of "section" ?ys st1 st1] upload_row_twice [of "section" item ?xs st st1]
    show "map JSON_item ?zs = map JSON_item ?ys" by simp
  next
    from upload_row_quantity [OF assms(2,3), of "section" ?xs st] n
    show "quantity_of (map JSON_item ?ys) (Num (Integer n)) = Some (JSON_number (row_quantity item))"
      by (simp add: quantity_of_JSON)
  qed
  from u1 u2 u3 q f show ?thesis by blast
qed

theorem bulk_set_idempotent_witness:
  "''A'' \<in> set sections \<and> \<not> isNaN (row_size (int_row 10 7)) \<and> \<not> isNaN (row_quantity (int_row 10 7)) \<and>
   (\<exists>stockData st1 st2.
      upload state_10_5 (JStr ''A'') (Some \<lparr>extname = ''.csv'', rows = [int_row 10 7]\<rparr>) = (Success stockData, st1) \<and>
      upload st1 (JStr ''A'') (Some \<lparr>extname = ''.csv'', rows = [int_row 10 7]\<rparr>) = (Success stockData, st2) \<and>
      getStockData st2 ''A'' = stockData \<and>
      fst (upload state_10_5 (JStr ''A'') (Some \<lparr>extname = ''.csv'', rows = [int_row 10 7, int_row 10 7]\<rparr>)) = Success stockData \<and>
      quantity_of stockData (Num (Integer 10)) = Some (Num (Integer 7)))"
proof -
  have s: "''A'' \<in> set sections"
    by (simp add: sections_def)
  have n: "\<not> isNaN (row_size (int_row 10 7))" "\<not> isNaN (row_quantity (int_row 10 7))"
    by (simp_all add: int_row_def)
  from bulk_set_idempotent [OF s n, of state_10_5 "''.csv''" "''.csv''" "''.csv''"] s n
  show ?thesis by (auto simp add: int_row_def)
qed

section \<open>One item per size\<close>




section \<open>The transaction log\<close>

text \<open>
  C7. In every reachable state the log document holds a list \<open>lg\<close>, and: a
  successful stock-in leaves the log \<open>lg\<close> followed by one \<open>IN\<close> entry; a
  successful stock-out leaves \<open>lg\<close> followed by one \<open>OUT\<close> entry; an upload
  leaves \<open>lg\<close> followed by one \<open>UPLOAD\<close> entry for each row that is applied
  (neither field NaN), in the order of the rows. An entry holds the size and the
  quantity of the request or the row as JSON text keeps them. The timestamp of each
  entry is the reading of the clock taken when it is appended: the next reading for
  stock-in and stock-out, and for an upload the readings that follow the one multer
  took to name the file.
\<close>

theorem transaction_logged:
  assumes "reachable st"
  shows "\<exists>lg. log_file st = Some (Json lg) \<and>
     (\<forall>section size' quantity stockData st'.
        stock_in st section size' quantity = (Success stockData, st') \<longrightarrow>
        log_file st' =
          Some (Json (lg @ [\<lparr>txn_section = str_of section, txn_size = JSON_number (num_of size'),
                            txn_quantity = JSON_number (num_of quantity), txn_type = IN,
                            timestamp = clock st (reads st)\<rparr>]))) \<and>
     (\<forall>section size' quantity stockData st'.
        stock_out st section size' quantity = (Success stockData, st') \<longrightarrow>
        log_file st' =
          Some (Json (lg @ [\<lparr>txn_section = str_of section, txn_size = JSON_number (num_of size'),
                            txn_quantity = JSON_number (num_of quantity), txn_type = OUT,
                            timestamp = clock st (reads st)\<rparr>]))) \<and>
     (\<forall>section f stockData st'.
        upload st section (Some f) = (Success stockData, st') \<longrightarrow>
        log_file st' =
          Some (Json (lg @ map (\<lambda>(k, item).
                  \<lparr>txn_section = str_of section, txn_size = JSON_number (row_size item),
                   txn_quantity = JSON_number (row_quantity item), txn_type = UPLOAD,
                   timestamp = clock st k\<rparr>)
                (enumerate (Suc (reads st))
                   (filter (\<lambda>item. \<not> (isNaN (row_size item) \<or> isNaN (row_quantity item)))
                      (rows f))))))"
proof -
  from reachable_log_readable [OF assms] obtain lg where
    lg: "log_file st = Some (Json lg)" "map JSON_entry lg = lg" by blast
  show ?thesis
    using lg(1) stock_in_log [OF lg] stock_out_log [OF lg] upload_log [OF lg] by blast
qed

theorem transaction_logged_witness:
  "reachable state_10_5 \<and>
   log_file state_10_5 =
     Some (Json [\<lparr>txn_section = ''A'', txn_size = Num (Integer 10), txn_quantity = Num (Integer 5),
                  txn_type = IN, timestamp = 1000\<rparr>]) \<and>
   log_file (snd (stock_in state_10_5 (JStr ''A'') (FNum (Integer 10)) (FNum (Integer 3)))) =
     Some (Json [\<lparr>txn_section = ''A'', txn_size = Num (Integer 10), txn_quantity = Num (Integer 5),
                  txn_type = IN, timestamp = 1000\<rparr>,
                 \<lparr>txn_section = ''A'', txn_size = Num (Integer 10), txn_quantity = Num (Integer 3),
                  txn_type = IN, timestamp = 1001\<rparr>]) \<and>
   log_file (snd (stock_out state_10_5 (JStr ''A'') (FNum (Integer 10)) (FNum (Integer 2)))) =
     Some (Json [\<lparr>txn_section = ''A'', txn_size = Num (Integer 10), txn_quantity = Num (Integer 5),
                  txn_type = IN, timestamp = 1000\<rparr>,
                 \<lparr>txn_section = ''A'', txn_size = Num (Integer 10), txn_quantity = Num (Integer 2),
                  txn_type = OUT, timestamp = 1001\<rparr>]) \<and>
   log_file (snd (upload state_10_5 (JStr ''A'')
       (Some (csv_file [int_row 12 1, \<lparr>row_size = NaN, row_quantity = Integer 3\<rparr>, int_row 10 7])))) =
     Some (Json [\<lparr>txn_section = ''A'', txn_size = Num (Integer 10), txn_quantity = Num (Integer 5),
                  txn_type = IN, timestamp = 1000\<rparr>,
                 \<lparr>txn_section = ''A'', txn_size = Num (Integer 12), txn_quantity = Num (Integer 1),
                  txn_type = UPLOAD, timestamp = 1002\<rparr>,
                 \<lparr>txn_section = ''A'', txn_size = Num (Integer 10), txn_quantity = Num (Integer 7),
                  txn_type = UPLOAD, timestamp = 1003\<rparr>])"
proof -
  let ?f = "csv_file [int_row 12 1, \<lparr>row_size = NaN, row_quantity = Integer 3\<rparr>, int_row 10 7]"
  have l: "log_file state_10_5 =
     Some (Json [\<lparr>txn_section = ''A'', txn_size = Num (Integer 10), txn_quantity = Num (Integer 5),
                  txn_type = IN, timestamp = 1000\<rparr>])"
    by code_simp
  have c: "reads state_10_5 = 1" "clock state_10_5 = clock0"
    by (simp_all add: state_10_5_def state0_def stock_in_def sections_def Let_def
        saveStockData_def logTransaction_def readFileSync_def JSON_parse_def Date_now_def
        bootstrap_empty_disk)
  have i: "stock_in state_10_5 (JStr ''A'') (FNum (Integer 10)) (FNum (Integer 3)) =
             (Success [int_item 10 8],
              snd (stock_in state_10_5 (JStr ''A'') (FNum (Integer 10)) (FNum (Integer 3))))"
    by (rule prod_eqI) (code_simp, simp)
  have out: "stock_out state_10_5 (JStr ''A'') (FNum (Integer 10)) (FNum (Integer 2)) =
             (Success [int_item 10 3],
              snd (stock_out state_10_5 (JStr ''A'') (FNum (Integer 10)) (FNum (Integer 2))))"
    by (rule prod_eqI) (code_simp, simp)
  have u: "upload state_10_5 (JStr ''A'') (Some ?f) =
             (Success [int_item 10 7, int_item 12 1],
              snd (upload state_10_5 (JStr ''A'') (Some ?f)))"
    by (rule prod_eqI) (code_simp, simp)
  from transaction_logged [OF reachable_state_10_5] l i out u c
  show ?thesis
    by (auto simp add: reachable_state_10_5 clock0_def csv_file_def int_row_def enumerate_eq_zip)
qed

section \<open>Negative quantities\<close>

text \<open>
  C1. The claim fails at an upload: on the first startup, the upload to section A of
  a file whose one row is size 10, quantity -5 is answered with success, and
  section A then holds -5 of size 10, returned and persisted. Stock-in and
  stock-out keep quantities at 0 or more (\<open>stock_in_nonneg\<close>,
  \<open>stock_out_nonneg\<close>).
\<close>

theorem upload_negative_quantity:
  "fst (upload state0 (JStr ''A'') (Some (csv_file [int_row 10 (- 5)]))) =
     Success [int_item 10 (- 5)] \<and>
   getStockData (snd (upload state0 (JStr ''A'') (Some (csv_file [int_row 10 (- 5)])))) ''A'' =
     [int_item 10 (- 5)]"
  by code_simp

section \<open>The uploaded file\<close>

text \<open>
  C3. The claim fails at an invalid section: on the first startup, an upload of a
  file with section Z, or with no section, is answered 400 \<^verbatim>\<open>Invalid section\<close>
  and the file multer stored stays under \<^verbatim>\<open>uploads/\<close>. With a known section
  the file is removed.
\<close>

theorem upload_invalid_section_keeps_file:
  "uploads state0 (1000, ''.csv'') = None \<and>
   fst (upload state0 (JStr ''Z'') (Some (csv_file [int_row 10 5]))) = Status400 ''Invalid section'' \<and>
   uploads (snd (upload state0 (JStr ''Z'') (Some (csv_file [int_row 10 5])))) (1000, ''.csv'') =
     Some [int_row 10 5] \<and>
   fst (upload state0 JUndefined (Some (csv_file [int_row 10 5]))) = Status400 ''Invalid section'' \<and>
   uploads (snd (upload state0 JUndefined (Some (csv_file [int_row 10 5])))) (1000, ''.csv'') =
     Some [int_row 10 5] \<and>
   uploads (snd (upload state0 (JStr ''A'') (Some (csv_file [int_row 10 5])))) (1000, ''.csv'') = None"
  by code_simp

end
